theory Spec2Isabelle
  imports Complex_Main "HOL-Library.Word"
begin

section \<open>Python values and errors\<close>

text \<open>
  The three source files are Python. Every exception the modelled code can raise is a
  value of \<open>error\<close>; a function that can raise returns \<open>error + 'a\<close>, with
  \<open>Inl\<close> for the exception. Python integers are \<open>int\<close>, the readings of
  \<open>time.time()\<close> and the entries of tensors are \<open>real\<close> (rounding of floating
  point numbers is outside the model), byte strings are lists of 8-bit words. Console
  output (\<open>print\<close>, progress bars) is not modelled.
\<close>

datatype error =
    IndexError
  | ZeroDivisionError
  | KeyError string
  | TypeError
  | RuntimeError
  | UnpicklingError
  | AssertionError string
  | NoSuchObject

type_synonym bytes = "8 word list"

text \<open>\<open>str(n)\<close> for an integer, as an f-string formats it.\<close>

fun str_nat :: "nat \<Rightarrow> string" where
  "str_nat n =
     (if n < 10 then [''0123456789'' ! n]
      else str_nat (n div 10) @ [''0123456789'' ! (n mod 10)])"

definition str_int :: "int \<Rightarrow> string" where
  "str_int i = (if i < 0 then ''-'' @ str_nat (nat (- i)) else str_nat (nat i))"

text \<open>
  A Python slice \<open>xs[a:b]\<close> with integer bounds: a negative bound counts from the
  end, and both bounds are clipped to the length.
\<close>

definition slice_index :: "int \<Rightarrow> nat \<Rightarrow> nat" where
  "slice_index i n = (if i < 0 then nat (max (i + int n) 0) else min (nat i) n)"

definition py_slice :: "int \<Rightarrow> int \<Rightarrow> 'a list \<Rightarrow> 'a list" where
  "py_slice a b xs =
     (let lo = slice_index a (length xs); hi = slice_index b (length xs)
      in take (hi - lo) (drop lo xs))"

text \<open>\<open>xs[:b]\<close> and \<open>xs[a:]\<close>.\<close>

definition py_slice_to :: "int \<Rightarrow> 'a list \<Rightarrow> 'a list" where
  "py_slice_to b xs = py_slice 0 b xs"

definition py_slice_from :: "int \<Rightarrow> 'a list \<Rightarrow> 'a list" where
  "py_slice_from a xs = py_slice a (int (length xs)) xs"

section \<open>CheckpointHandler.py\<close>

text \<open>
  The handler object. \<open>start_time\<close> and \<open>last_check_time\<close> are readings of
  \<open>time.time()\<close>; the clock is a parameter of every operation that reads it.
\<close>

record CheckpointHandler =
  experiment_name :: string
  checkpoint_dir :: string
  checkpoint_path :: string
  epoch :: int
  chunk :: int
  start_time :: real
  last_check_time :: real
  checkpoint_every :: real
  max_runtime :: real

text \<open>
  The dictionary that \<open>save_checkpoint\<close> pickles: five fixed keys. The model and
  optimizer state dictionaries are opaque (\<open>'m\<close>, \<open>'o\<close>); the logs are a dictionary
  from metric names to lists of scalars \<open>'v\<close>.
\<close>

type_synonym 'v logs = "string \<rightharpoonup> 'v list"

record ('m, 'o, 'v) checkpoint =
  ck_epoch :: int
  ck_chunk :: int
  ck_model_state_dict :: 'm
  ck_optimizer_state_dict :: 'o
  ck_logs :: "'v logs"

text \<open>
  The file system: a path holds no file, a file written by \<open>pickle.dump\<close> of a
  checkpoint dictionary (which \<open>pickle.load\<close> returns as it was dumped), or a file
  that \<open>pickle.load\<close> cannot read. Writing is assumed to succeed (the directory
  exists and is writable).
\<close>

datatype ('m, 'o, 'v) file_content =
    Pickled "('m, 'o, 'v) checkpoint"
  | Unreadable

type_synonym ('m, 'o, 'v) filesystem = "string \<rightharpoonup> ('m, 'o, 'v) file_content"

text \<open>\<open>os.path.join(a, b)\<close> on POSIX, for two components.\<close>

definition os_path_join :: "string \<Rightarrow> string \<Rightarrow> string" where
  "os_path_join a b =
     (if b \<noteq> [] \<and> hd b = CHR ''/'' then b
      else if a = [] \<or> last a = CHR ''/'' then a @ b
      else a @ ''/'' @ b)"

text \<open>
  \<open>__init__\<close>. \<open>script_dir\<close> is \<open>os.path.dirname(os.path.abspath(__file__))\<close> and
  \<open>now\<close> the reading of \<open>time.time()\<close>; \<open>checkpoint_dir or ...\<close> takes the default
  for \<open>None\<close> and for the empty string.
\<close>

definition CheckpointHandler_init ::
  "string \<Rightarrow> real \<Rightarrow> real \<Rightarrow> string option \<Rightarrow> string \<Rightarrow> real \<Rightarrow> CheckpointHandler" where
  "CheckpointHandler_init name every maxrt dir script_dir now =
     (let d = (case dir of None \<Rightarrow> script_dir
                  | Some s \<Rightarrow> if s = [] then script_dir else s)
      in \<lparr> experiment_name = name,
           checkpoint_dir = d,
           checkpoint_path = os_path_join d (name @ ''_checkpoint.pkl''),
           epoch = 0,
           chunk = 0,
           start_time = now,
           last_check_time = now,
           checkpoint_every = every,
           max_runtime = maxrt \<rparr>)"

text \<open>
  \<open>save_checkpoint\<close>: \<open>model_state\<close> is \<open>ddp_model.module.state_dict()\<close> and
  \<open>optimizer_state\<close> is \<open>optimizer.state_dict()\<close>. The handler is not changed; the
  file at \<open>checkpoint_path\<close> is created or overwritten.
\<close>

definition save_checkpoint ::
  "CheckpointHandler \<Rightarrow> 'm \<Rightarrow> 'o \<Rightarrow> 'v logs \<Rightarrow> ('m, 'o, 'v) filesystem
     \<Rightarrow> ('m, 'o, 'v) filesystem" where
  "save_checkpoint self model_state optimizer_state logs fs =
     (let checkpoint = \<lparr> ck_epoch = epoch self,
                          ck_chunk = chunk self,
                          ck_model_state_dict = model_state,
                          ck_optimizer_state_dict = optimizer_state,
                          ck_logs = logs \<rparr>
      in fs(checkpoint_path self \<mapsto> Pickled checkpoint))"

definition initialize_logs :: "'v logs" where
  "initialize_logs =
     [''train_loss'' \<mapsto> [], ''train_loss_X'' \<mapsto> [], ''train_loss_X_epoch'' \<mapsto> [],
      ''runtime_per_250_batches'' \<mapsto> [], ''l0_norm'' \<mapsto> [], ''l0_norm_X'' \<mapsto> [],
      ''l0_norm_X_epoch'' \<mapsto> []]"

text \<open>
  \<open>load_checkpoint\<close> returns the triple (or the exception of \<open>pickle.load\<close>) and
  the handler afterwards. \<open>None\<close> for the two state dictionaries is \<open>None\<close> of
  \<open>option\<close>.
\<close>

definition load_checkpoint ::
  "CheckpointHandler \<Rightarrow> ('m, 'o, 'v) filesystem
     \<Rightarrow> (error + ('m option \<times> 'o option \<times> 'v logs)) \<times> CheckpointHandler" where
  "load_checkpoint self fs =
     (case fs (checkpoint_path self) of
        Some (Pickled checkpoint) \<Rightarrow>
          (Inr (Some (ck_model_state_dict checkpoint),
                Some (ck_optimizer_state_dict checkpoint),
                ck_logs checkpoint),
           self\<lparr>epoch := ck_epoch checkpoint, chunk := ck_chunk checkpoint\<rparr>)
      | Some Unreadable \<Rightarrow> (Inl UnpicklingError, self)
      | None \<Rightarrow> (Inr (None, None, initialize_logs), self))"

definition update :: "CheckpointHandler \<Rightarrow> int \<Rightarrow> int \<Rightarrow> CheckpointHandler" where
  "update self e c = self\<lparr>epoch := e, chunk := c\<rparr>"

text \<open>\<open>should_checkpoint\<close>: \<open>current_time\<close> is the reading of \<open>time.time()\<close>.\<close>

definition should_checkpoint :: "CheckpointHandler \<Rightarrow> real \<Rightarrow> bool \<times> CheckpointHandler" where
  "should_checkpoint self current_time =
     (if current_time - last_check_time self > checkpoint_every self then
        (let self' = self\<lparr>last_check_time := current_time\<rparr>
         in if current_time - start_time self' > max_runtime self' then (True, self')
            else (False, self'))
      else (False, self))"

text \<open>A run of \<open>update\<close> calls, and a run of \<open>should_checkpoint\<close> polls at given times.\<close>

fun updates :: "CheckpointHandler \<Rightarrow> (int \<times> int) list \<Rightarrow> CheckpointHandler" where
  "updates self [] = self"
| "updates self ((e, c) # us) = updates (update self e c) us"

fun polls :: "CheckpointHandler \<Rightarrow> real list \<Rightarrow> bool list" where
  "polls self [] = []"
| "polls self (t # ts) =
     (case should_checkpoint self t of (r, self') \<Rightarrow> r # polls self' ts)"

section \<open>Datasets/Wiki40BDataset.py\<close>

text \<open>
  A dataset object: the list of chunks (byte strings) and the name of the split. The
  code never changes a list in place (it only assigns the attribute \<open>data\<close>), so a
  list is a value here; dataset objects have an identity and live in a store.
\<close>

record ByteWikipediaDataset =
  data :: "bytes list"
  split :: string

definition len :: "ByteWikipediaDataset \<Rightarrow> nat" where
  "len self = length (data self)"

text \<open>
  \<open>__getitem__\<close>: Python list indexing (a negative index counts from the end, an index
  out of range raises), then the bytes as a tensor of integers.
\<close>

definition getitem :: "ByteWikipediaDataset \<Rightarrow> int \<Rightarrow> error + int list" where
  "getitem self idx =
     (let n = int (length (data self)); j = (if idx < 0 then idx + n else idx)
      in if 0 \<le> j \<and> j < n then Inr (map uint (data self ! nat j)) else Inl IndexError)"

record WikipediaDatasets =
  train :: ByteWikipediaDataset
  validation :: ByteWikipediaDataset
  test :: ByteWikipediaDataset
  sequence_length :: int

text \<open>
  \<open>create_and_save_dataset\<close>, lines 110 to 112: the \<open>while\<close> loop that cuts full
  chunks off the front of \<open>current_chunk\<close>. It does not terminate for every
  \<open>sequence_length\<close>, so not returning is the value \<open>None\<close>.
\<close>

partial_function (option) chunk_loop ::
  "int \<Rightarrow> bytes \<Rightarrow> bytes list \<Rightarrow> (bytes \<times> bytes list) option" where
  "chunk_loop seq_len current_chunk processed =
     (if int (length current_chunk) \<ge> seq_len then
        chunk_loop seq_len (py_slice_from seq_len current_chunk)
          (processed @ [py_slice_to seq_len current_chunk])
      else Some (current_chunk, processed))"

text \<open>
  Lines 105 to 113: the loop over the examples of one split. An example is the UTF-8
  encoding of its text (decoding and encoding again returns the same bytes).
\<close>

fun examples_loop ::
  "int \<Rightarrow> bytes list \<Rightarrow> bytes \<Rightarrow> bytes list \<Rightarrow> (bytes \<times> bytes list) option" where
  "examples_loop seq_len [] current_chunk processed = Some (current_chunk, processed)"
| "examples_loop seq_len (byte_encoded # examples) current_chunk processed =
     (case chunk_loop seq_len (current_chunk @ byte_encoded) processed of
        None \<Rightarrow> None
      | Some (current_chunk', processed') \<Rightarrow>
          examples_loop seq_len examples current_chunk' processed')"

text \<open>Lines 103 to 119: one split, with the handling of the last chunk.\<close>

definition process_split :: "int \<Rightarrow> bytes list \<Rightarrow> bytes list option" where
  "process_split seq_len examples =
     (case examples_loop seq_len examples [] [] of
        None \<Rightarrow> None
      | Some (current_chunk, processed) \<Rightarrow>
          Some (if current_chunk \<noteq> [] then
                  (let padded =
                     (if int (length current_chunk) < seq_len then
                        current_chunk @ replicate (nat (seq_len - int (length current_chunk))) 0
                      else current_chunk)
                   in processed @ [py_slice_to seq_len padded])
                else processed))"

text \<open>
  \<open>create_and_save_dataset\<close>: \<open>wiki_data\<close> is what \<open>tfds.load\<close> returns, the
  examples of the three splits in the order train, validation, test. The result is the
  datasets object and the file system after \<open>torch.save\<close>.
\<close>

definition create_and_save_dataset ::
  "int \<Rightarrow> string \<Rightarrow> bytes list \<times> bytes list \<times> bytes list \<Rightarrow> (string \<rightharpoonup> WikipediaDatasets)
     \<Rightarrow> (WikipediaDatasets \<times> (string \<rightharpoonup> WikipediaDatasets)) option" where
  "create_and_save_dataset seq_len save_path wiki_data fs =
     (case wiki_data of (train_examples, validation_examples, test_examples) \<Rightarrow>
        (case process_split seq_len train_examples of
           None \<Rightarrow> None
         | Some processed_train \<Rightarrow>
        (case process_split seq_len validation_examples of
           None \<Rightarrow> None
         | Some processed_validation \<Rightarrow>
        (case process_split seq_len test_examples of
           None \<Rightarrow> None
         | Some processed_test \<Rightarrow>
             (let datasets =
                \<lparr> train = \<lparr> data = processed_train, split = ''train'' \<rparr>,
                  validation = \<lparr> data = processed_validation, split = ''validation'' \<rparr>,
                  test = \<lparr> data = processed_test, split = ''test'' \<rparr>,
                  sequence_length = seq_len \<rparr>
              in Some (datasets, fs(save_path \<mapsto> datasets)))))))"

text \<open>
  The store of dataset objects: a reference is an index into the list of the objects
  allocated so far. \<open>copy.deepcopy\<close> allocates a new object with the same attributes.
\<close>

type_synonym ref = nat
type_synonym store = "ByteWikipediaDataset list"

definition deepcopy :: "ref \<Rightarrow> store \<Rightarrow> ref \<times> store" where
  "deepcopy r s = (length s, s @ [s ! r])"

text \<open>
  \<open>get_subset\<close>. \<open>dataset.data[0]\<close> raises on an empty dataset, \<open>%\<close> raises when
  the first chunk is empty; the three assertions follow in the order of the source.
  \<open>//\<close> and \<open>%\<close> on Python integers round towards minus infinity, as \<open>div\<close> and
  \<open>mod\<close> on \<open>int\<close> do. A reference to no object cannot arise in Python; the first
  branch only makes the function total.
\<close>

definition get_subset :: "int \<Rightarrow> int \<Rightarrow> ref \<Rightarrow> store \<Rightarrow> (error + ref) \<times> store" where
  "get_subset start_token end_token dataset s =
     (if dataset \<ge> length s then (Inl NoSuchObject, s)
      else case data (s ! dataset) of
        [] \<Rightarrow> (Inl IndexError, s)
      | first # _ \<Rightarrow>
          (let seq_len = int (length first) in
           if seq_len = 0 then (Inl ZeroDivisionError, s)
           else if start_token mod seq_len \<noteq> 0 then
             (Inl (AssertionError
                (''Start token must be a multiple of the sequence length '' @ str_int seq_len)), s)
           else if end_token mod seq_len \<noteq> 0 then
             (Inl (AssertionError
                (''End token must be a multiple of the sequence length '' @ str_int seq_len)), s)
           else if \<not> start_token < end_token then
             (Inl (AssertionError ''Start token must be smaller than end token''), s)
           else
             (let start_chunk = start_token div seq_len;
                  end_chunk = end_token div seq_len
              in case deepcopy dataset s of (subset_ref, s') \<Rightarrow>
                   (Inr subset_ref,
                    s'[subset_ref := (s' ! subset_ref)
                         \<lparr>data := py_slice start_chunk end_chunk (data (s' ! subset_ref))\<rparr>]))))"

section \<open>DistributedOptimizationProcedures/DrrProcedure.py\<close>

text \<open>The Python values a hyperparameter of the configuration dictionary can be.\<close>

datatype pyval = PyNone | PyBool bool | PyInt int | PyFloat real | PyStr string

text \<open>
  The left operand of a product with a float: \<open>bool\<close> and \<open>int\<close> are converted,
  \<open>None\<close> and a string raise \<open>TypeError\<close> (\<open>None\<close> of \<open>option\<close> here).
\<close>

fun py_number :: "pyval \<Rightarrow> real option" where
  "py_number (PyBool b) = Some (if b then 1 else 0)"
| "py_number (PyInt i) = Some (real_of_int i)"
| "py_number (PyFloat x) = Some x"
| "py_number PyNone = None"
| "py_number (PyStr s) = None"

text \<open>
  A parameter of the model: its values and its gradient (flattened tensors), the
  gradient being \<open>None\<close> when backpropagation has produced none.
\<close>

record Parameter =
  param_data :: "real list"
  grad :: "real list option"

text \<open>
  Modelled from the spec: \<open>ProcedureTrainer.__init__\<close> (BaseProcedure.py is not among
  the sources). After it has run, the object holds the configuration dictionary as
  \<open>self.args\<close> and the model, whose \<open>parameters()\<close> are \<open>ddp_model\<close>.
\<close>

record ProcedureTrainer =
  args :: "string \<rightharpoonup> pyval"
  ddp_model :: "Parameter list"

text \<open>\<open>beta\<close> is a float once the assertion of \<open>__init__\<close> has passed.\<close>

record DrrTrainer = ProcedureTrainer +
  alpha :: pyval
  beta :: real

text \<open>
  \<open>DrrTrainer.__init__\<close> after \<open>super().__init__\<close> has returned \<open>base\<close>:
  \<open>isinstance(x, float)\<close> holds for a float only (not for an \<open>int\<close> or a \<open>bool\<close>).
\<close>

definition DrrTrainer_init :: "ProcedureTrainer \<Rightarrow> error + DrrTrainer" where
  "DrrTrainer_init base =
     (case args base ''beta'' of
        None \<Rightarrow> Inl (KeyError ''beta'')
      | Some (PyFloat b) \<Rightarrow>
          (case args base ''alpha'' of
             None \<Rightarrow> Inl (KeyError ''alpha'')
           | Some a \<Rightarrow>
               Inr \<lparr> args = args base, ddp_model = ddp_model base, alpha = a, beta = b \<rparr>)
      | Some _ \<Rightarrow> Inl (AssertionError ''beta must be a float''))"

text \<open>
  \<open>modify_grad\<close>: the term is computed from left to right as in the source; the
  in-place addition needs a term of the gradient's shape.
\<close>

definition modify_grad :: "DrrTrainer \<Rightarrow> Parameter \<Rightarrow> error + Parameter" where
  "modify_grad self param =
     (case grad param of
        None \<Rightarrow> Inr param
      | Some g \<Rightarrow>
          (case py_number (alpha self) of
             None \<Rightarrow> Inl TypeError
           | Some a \<Rightarrow>
               (let term = map (\<lambda>w. a * beta self * sgn w * exp (- beta self * \<bar>w\<bar>))
                             (param_data param)
                in if length term \<noteq> length g then Inl RuntimeError
                   else Inr (param\<lparr>grad := Some (map2 (+) g term)\<rparr>))))"

text \<open>
  \<open>modify_grads\<close>: the loop over the parameters stops at the first exception, the
  parameters before it having been changed.
\<close>

fun modify_grads_loop :: "DrrTrainer \<Rightarrow> Parameter list \<Rightarrow> error option \<times> Parameter list" where
  "modify_grads_loop self [] = (None, [])"
| "modify_grads_loop self (param # params) =
     (case modify_grad self param of
        Inl e \<Rightarrow> (Some e, param # params)
      | Inr param' \<Rightarrow>
          (case modify_grads_loop self params of (r, params') \<Rightarrow> (r, param' # params')))"

definition modify_grads :: "DrrTrainer \<Rightarrow> error option \<times> DrrTrainer" where
  "modify_grads self =
     (case modify_grads_loop self (ddp_model self) of
        (r, params') \<Rightarrow> (r, self\<lparr>ddp_model := params'\<rparr>))"

section \<open>Predicates of the properties\<close>

text \<open>
  The path invariant that \<open>__init__\<close> establishes (source line 19) and that no method
  breaks: the checkpoint path is the file \<open>{experiment_name}_checkpoint.pkl\<close> in the
  checkpoint directory.
\<close>

definition path_ok :: "CheckpointHandler \<Rightarrow> bool" where
  "path_ok self =
     (checkpoint_path self =
        os_path_join (checkpoint_dir self) (experiment_name self @ ''_checkpoint.pkl''))"

text \<open>
  A polling schedule: starting from \<open>prev\<close>, the clock never runs backwards and two
  successive readings are at most \<open>p\<close> apart.
\<close>

fun polled_within :: "real \<Rightarrow> real \<Rightarrow> real list \<Rightarrow> bool" where
  "polled_within p prev [] = True"
| "polled_within p prev (t # ts) = (prev \<le> t \<and> t - prev \<le> p \<and> polled_within p t ts)"

section \<open>Properties of the checkpoint handler\<close>

lemma path_ok_init: "path_ok (CheckpointHandler_init name every maxrt dir script_dir now)"
  by (simp add: path_ok_def CheckpointHandler_init_def Let_def)

lemma path_ok_update: "path_ok (update self e c) = path_ok self"
  by (simp add: path_ok_def update_def)

lemma path_ok_should_checkpoint: "path_ok (snd (should_checkpoint self t)) = path_ok self"
  by (simp add: path_ok_def should_checkpoint_def Let_def)

lemma path_ok_load_checkpoint: "path_ok (snd (load_checkpoint self fs)) = path_ok self"
  by (simp add: path_ok_def load_checkpoint_def split: option.splits file_content.splits)

lemma load_after_save:
  "checkpoint_path h2 = checkpoint_path h1 \<Longrightarrow>
   load_checkpoint h2 (save_checkpoint h1 m opt logs fs) =
     (Inr (Some m, Some opt, logs), h2\<lparr>epoch := epoch h1, chunk := chunk h1\<rparr>)"
  by (simp add: load_checkpoint_def save_checkpoint_def)

lemma update_update: "update (update self a b) e c = update self e c"
  by (simp add: update_def)

lemma updates_last:
  "updates self us = (if us = [] then self else update self (fst (last us)) (snd (last us)))"
  by (induction self us rule: updates.induct) (simp_all add: update_update)

lemma checkpoint_path_updates: "checkpoint_path (updates self us) = checkpoint_path self"
  by (simp add: updates_last update_def)

lemma length_polls: "length (polls self ts) = length ts"
  by (induction ts arbitrary: self) (simp_all split: prod.splits)

lemma start_time_should_checkpoint: "start_time (snd (should_checkpoint self t)) = start_time self"
  by (simp add: should_checkpoint_def Let_def)

lemma max_runtime_should_checkpoint: "max_runtime (snd (should_checkpoint self t)) = max_runtime self"
  by (simp add: should_checkpoint_def Let_def)

lemma checkpoint_every_should_checkpoint: "checkpoint_every (snd (should_checkpoint self t)) = checkpoint_every self"
  by (simp add: should_checkpoint_def Let_def)

lemma should_checkpoint_True:
  "fst (should_checkpoint self t) \<Longrightarrow> t - start_time self > max_runtime self"
  by (simp add: should_checkpoint_def Let_def split: if_splits)

lemma polls_True_late:
  "i < length ts \<Longrightarrow> polls self ts ! i \<Longrightarrow> ts ! i - start_time self > max_runtime self"
proof (induction ts arbitrary: self i)
  case Nil
  then show ?case by simp
next
  case (Cons t ts)
  obtain r self' where sc: "should_checkpoint self t = (r, self')"
    by (cases "should_checkpoint self t")
  have st: "start_time self' = start_time self" "max_runtime self' = max_runtime self"
    using start_time_should_checkpoint [of self t] max_runtime_should_checkpoint [of self t] sc
    by simp_all
  show ?case
  proof (cases i)
    case 0
    with Cons.prems sc have "fst (should_checkpoint self t)" by simp
    then show ?thesis using 0 by (simp add: should_checkpoint_True)
  next
    case (Suc j)
    with Cons.prems sc have "j < length ts" "polls self' ts ! j" by simp_all
    then have "ts ! j - start_time self' > max_runtime self'" by (rule Cons.IH)
    then show ?thesis using Suc st by simp
  qed
qed

lemma polls_fire:
  assumes "polled_within p q ts"
    and "last_check_time self \<le> q"
    and "q \<le> last_check_time self + checkpoint_every self"
    and "ts \<noteq> []"
    and "last ts > max (last_check_time self) (start_time self + max_runtime self)
                     + checkpoint_every self"
  shows "\<exists>i<length ts. polls self ts ! i \<and>
           ts ! i \<le> max (last_check_time self) (start_time self + max_runtime self)
                     + checkpoint_every self + p"
  using assms
proof (induction ts arbitrary: self q)
  case Nil
  then show ?case by simp
next
  case (Cons t ts)
  let ?L = "last_check_time self" and ?s = "start_time self"
  let ?M = "max_runtime self" and ?ce = "checkpoint_every self"
  from Cons.prems have qt: "q \<le> t" "t - q \<le> p" and pw: "polled_within p t ts" by simp_all
  from Cons.prems have ce0: "0 \<le> ?ce" by simp
  show ?case
  proof (cases "t - ?L > ?ce")
    case fire: True
    show ?thesis
    proof (cases "t - ?s > ?M")
      case True
      with fire have "polls self (t # ts) ! 0" by (simp add: should_checkpoint_def Let_def)
      moreover have "t \<le> max ?L (?s + ?M) + ?ce + p" using qt Cons.prems(3) by simp
      ultimately show ?thesis by auto
    next
      case False
      define self' where "self' = self\<lparr>last_check_time := t\<rparr>"
      have sc: "should_checkpoint self t = (False, self')"
        using fire False by (simp add: should_checkpoint_def Let_def self'_def)
      have ne: "ts \<noteq> []"
      proof
        assume "ts = []"
        with Cons.prems(5) have "t > max ?L (?s + ?M) + ?ce" by simp
        with False ce0 show False by simp
      qed
      have m: "max (last_check_time self') (start_time self' + max_runtime self') = ?s + ?M"
        using False by (simp add: self'_def)
      have "last ts > ?s + ?M + ?ce" using Cons.prems(5) ne by simp
      then have "\<exists>i<length ts. polls self' ts ! i \<and>
           ts ! i \<le> max (last_check_time self') (start_time self' + max_runtime self')
                     + checkpoint_every self' + p"
        using pw ne ce0 by (intro Cons.IH [of t self']) (simp_all add: m, simp_all add: self'_def)
      then obtain i where "i < length ts" "polls self' ts ! i" "ts ! i \<le> ?s + ?M + ?ce + p"
        by (auto simp: m) (simp add: self'_def)
      then have "Suc i < length (t # ts)" "polls self (t # ts) ! Suc i"
        "(t # ts) ! Suc i \<le> max ?L (?s + ?M) + ?ce + p"
        using sc by simp_all
      then show ?thesis by blast
    qed
  next
    case False
    have sc: "should_checkpoint self t = (False, self)"
      using False by (simp add: should_checkpoint_def)
    have ne: "ts \<noteq> []"
    proof
      assume "ts = []"
      with Cons.prems(5) have "t > max ?L (?s + ?M) + ?ce" by simp
      with False show False by simp
    qed
    have "\<exists>i<length ts. polls self ts ! i \<and> ts ! i \<le> max ?L (?s + ?M) + ?ce + p"
      using pw ne Cons.prems(2,5) qt False by (intro Cons.IH [of t self]) simp_all
    then obtain i where "i < length ts" "polls self ts ! i" "ts ! i \<le> max ?L (?s + ?M) + ?ce + p"
      by blast
    then have "Suc i < length (t # ts)" "polls self (t # ts) ! Suc i"
        "(t # ts) ! Suc i \<le> max ?L (?s + ?M) + ?ce + p"
      using sc by simp_all
    then show ?thesis by blast
  qed
qed

lemma init_position:
  "epoch (CheckpointHandler_init name every maxrt dir script_dir now) = 0"
  "chunk (CheckpointHandler_init name every maxrt dir script_dir now) = 0"
  by (simp_all add: CheckpointHandler_init_def Let_def)

lemma position_updates:
  "epoch (updates self us) = (if us = [] then epoch self else fst (last us))"
  "chunk (updates self us) = (if us = [] then chunk self else snd (last us))"
  by (simp_all add: updates_last update_def)

lemma save_checkpoint_at_path:
  "save_checkpoint self m opt logs fs (checkpoint_path self) =
     Some (Pickled \<lparr> ck_epoch = epoch self, ck_chunk = chunk self, ck_model_state_dict = m,
                     ck_optimizer_state_dict = opt, ck_logs = logs \<rparr>)"
  by (simp add: save_checkpoint_def)

lemma init_times:
  "start_time (CheckpointHandler_init name every maxrt dir script_dir now) = now"
  "last_check_time (CheckpointHandler_init name every maxrt dir script_dir now) = now"
  "checkpoint_every (CheckpointHandler_init name every maxrt dir script_dir now) = every"
  "max_runtime (CheckpointHandler_init name every maxrt dir script_dir now) = maxrt"
  by (simp_all add: CheckpointHandler_init_def Let_def)

subsection \<open>Claims about the checkpoint handler\<close>

text \<open>
  C1 (round trip). A handler whose checkpoint path was derived from its experiment name
  and checkpoint directory saves at any position; a handler with the same experiment
  name and checkpoint directory then loads exactly the saved model state, optimizer
  state and logs, and its own epoch and chunk become the saved position.
\<close>

theorem save_load_round_trip:
  assumes "path_ok h1" and "path_ok h2"
    and "experiment_name h2 = experiment_name h1"
    and "checkpoint_dir h2 = checkpoint_dir h1"
  shows "load_checkpoint h2 (save_checkpoint h1 m opt logs fs) =
           (Inr (Some m, Some opt, logs), h2\<lparr>epoch := epoch h1, chunk := chunk h1\<rparr>)"
proof -
  from assms have "checkpoint_path h2 = checkpoint_path h1"
    by (simp add: path_ok_def)
  then show ?thesis by (rule load_after_save)
qed

text \<open>
  An instance of C1: saved at position (3, 40) by one handler, loaded by a second
  handler constructed later for the same experiment and directory.
\<close>

theorem save_load_round_trip_witness:
  "load_checkpoint (CheckpointHandler_init ''exp'' 60 3600 (Some ''/ckpt'') ''/repo/src'' 500)
     (save_checkpoint
        (update (CheckpointHandler_init ''exp'' 30 1800 (Some ''/ckpt'') ''/repo/src'' 100) 3 40)
        (7::nat) (9::nat) [''train_loss'' \<mapsto> [1::int, 2]] Map.empty) =
   (Inr (Some 7, Some 9, [''train_loss'' \<mapsto> [1, 2]]),
    \<lparr> experiment_name = ''exp'', checkpoint_dir = ''/ckpt'',
      checkpoint_path = ''/ckpt/exp_checkpoint.pkl'', epoch = 3, chunk = 40,
      start_time = 500, last_check_time = 500, checkpoint_every = 60, max_runtime = 3600 \<rparr>)"
proof -
  let ?h1 = "update (CheckpointHandler_init ''exp'' 30 1800 (Some ''/ckpt'') ''/repo/src'' 100) 3 40"
  let ?h2 = "CheckpointHandler_init ''exp'' 60 3600 (Some ''/ckpt'') ''/repo/src'' 500"
  have 1: "path_ok ?h1" by (simp add: path_ok_update path_ok_init)
  have 2: "path_ok ?h2" by (rule path_ok_init)
  have 3: "experiment_name ?h2 = experiment_name ?h1"
    by (simp add: CheckpointHandler_init_def update_def Let_def)
  have 4: "checkpoint_dir ?h2 = checkpoint_dir ?h1"
    by (simp add: CheckpointHandler_init_def update_def Let_def)
  show ?thesis
    using save_load_round_trip [OF 1 2 3 4, of "7::nat" "9::nat" "[''train_loss'' \<mapsto> [1::int, 2]]" Map.empty]
    by (simp add: CheckpointHandler_init_def update_def os_path_join_def Let_def)
qed

text \<open>
  C2 as the code has it. (a) A poll returns true only when more than \<open>max_runtime\<close> has
  elapsed since construction. (b) With \<open>max_runtime\<close> not negative and polls at most
  \<open>p \<le> checkpoint_every\<close> apart that go on past \<open>max_runtime + checkpoint_every\<close>,
  some poll returns true within \<open>max_runtime + checkpoint_every + p\<close> of construction,
  hence within \<open>max_runtime + 2 * checkpoint_every\<close>. The interval gate restarts at
  every poll that passes it, so the bound \<open>max_runtime + checkpoint_every\<close> of the claim
  does not hold.
\<close>

theorem should_checkpoint_timing:
  assumes "self = CheckpointHandler_init name every maxrt dir script_dir t0"
  shows "(\<forall>i<length ts. polls self ts ! i \<longrightarrow> maxrt < ts ! i - t0) \<and>
         (0 \<le> maxrt \<and> p \<le> every \<and> polled_within p t0 ts \<and> ts \<noteq> [] \<and>
          t0 + maxrt + every < last ts \<longrightarrow>
            (\<exists>i<length ts. polls self ts ! i \<and> ts ! i \<le> t0 + maxrt + every + p
                \<and> ts ! i \<le> t0 + maxrt + 2 * every))"
proof (intro conjI allI impI)
  fix i
  assume "i < length ts" "polls self ts ! i"
  then have "max_runtime self < ts ! i - start_time self"
    by (rule polls_True_late)
  then show "maxrt < ts ! i - t0"
    by (simp only: assms init_times)
next
  assume a: "0 \<le> maxrt \<and> p \<le> every \<and> polled_within p t0 ts \<and> ts \<noteq> [] \<and>
          t0 + maxrt + every < last ts"
  have times: "start_time self = t0" "last_check_time self = t0"
    "checkpoint_every self = every" "max_runtime self = maxrt"
    by (simp_all only: assms init_times)
  from a have every0: "0 \<le> every"
    by (cases ts) auto
  have m: "max (last_check_time self) (start_time self + max_runtime self) = t0 + maxrt"
    using a by (simp add: times)
  have "\<exists>i<length ts. polls self ts ! i \<and>
           ts ! i \<le> max (last_check_time self) (start_time self + max_runtime self)
                     + checkpoint_every self + p"
  proof (rule polls_fire [where q = t0])
    show "polled_within p t0 ts" using a by simp
    show "last_check_time self \<le> t0" by (simp add: times)
    show "t0 \<le> last_check_time self + checkpoint_every self"
      using every0 by (simp add: times)
    show "ts \<noteq> []" using a by simp
    show "max (last_check_time self) (start_time self + max_runtime self)
            + checkpoint_every self < last ts"
      using a by (simp add: times max_def)
  qed
  moreover have "max (last_check_time self) (start_time self + max_runtime self)
                     + checkpoint_every self + p = t0 + maxrt + every + p"
    using a by (simp add: times max_def)
  ultimately obtain i where i: "i < length ts" "polls self ts ! i"
      "ts ! i \<le> t0 + maxrt + every + p"
    by auto
  moreover from i(3) a have "ts ! i \<le> t0 + maxrt + 2 * every" by simp
  ultimately show "\<exists>i<length ts. polls self ts ! i \<and> ts ! i \<le> t0 + maxrt + every + p
                \<and> ts ! i \<le> t0 + maxrt + 2 * every"
    by blast
qed

text \<open>
  An instance of C2: \<open>checkpoint_every = 10\<close>, \<open>max_runtime = 20\<close>, polls every 10
  seconds.
\<close>

theorem should_checkpoint_timing_witness:
  "polled_within 10 0 [10, 20, 30, 40] \<and>
   (\<exists>i<length [10, 20, 30, 40 :: real].
      polls (CheckpointHandler_init ''exp'' 10 20 None ''/repo/src'' 0) [10, 20, 30, 40] ! i
      \<and> [10, 20, 30, 40 :: real] ! i \<le> 0 + 20 + 10 + 10)"
proof -
  have h: "(0::real) \<le> 20 \<and> (10::real) \<le> 10 \<and> polled_within 10 0 [10, 20, 30, 40] \<and>
     [10, 20, 30, 40 :: real] \<noteq> [] \<and> (0::real) + 20 + 10 < last [10, 20, 30, 40]"
    by simp
  from should_checkpoint_timing [OF refl, of "[10, 20, 30, 40]" "''exp''" 10 20 None "''/repo/src''" 0 10] h
  show ?thesis by blast
qed

text \<open>
  C2 as stated fails: with \<open>checkpoint_every = 10\<close> and \<open>max_runtime = 20\<close>, polled
  every 10 seconds from construction at time 0, the polls at 10, 20 and 30 (all within
  \<open>max_runtime + checkpoint_every = 30\<close>) return false; the first true comes at 40.
\<close>

theorem should_checkpoint_timing_counterexample:
  "polled_within 10 0 [10, 20, 30, 40] \<and>
   polls (CheckpointHandler_init ''exp'' 10 20 None ''/repo/src'' 0) [10, 20, 30, 40] =
     [False, False, False, True] \<and>
   (30::real) \<le> 0 + 20 + 10 \<and> \<not> (40::real) \<le> 0 + 20 + 10"
  by (simp add: CheckpointHandler_init_def should_checkpoint_def Let_def)

text \<open>
  C4 (no stale position). After any run of \<open>update\<close> calls on a new handler,
  \<open>save_checkpoint\<close> writes a record whose epoch and chunk are the arguments of the
  last call, and 0 and 0 when there was none.
\<close>

theorem save_after_updates_position:
  "save_checkpoint
     (updates (CheckpointHandler_init name every maxrt dir script_dir now) us) m opt logs fs
     (checkpoint_path (CheckpointHandler_init name every maxrt dir script_dir now)) =
   Some (Pickled \<lparr> ck_epoch = (if us = [] then 0 else fst (last us)),
                   ck_chunk = (if us = [] then 0 else snd (last us)),
                   ck_model_state_dict = m,
                   ck_optimizer_state_dict = opt,
                   ck_logs = logs \<rparr>)"
proof -
  let ?init = "CheckpointHandler_init name every maxrt dir script_dir now"
  let ?h = "updates ?init us"
  have "save_checkpoint ?h m opt logs fs (checkpoint_path ?init) =
        save_checkpoint ?h m opt logs fs (checkpoint_path ?h)"
    by (simp only: checkpoint_path_updates)
  also have "\<dots> =
     Some (Pickled \<lparr> ck_epoch = epoch ?h, ck_chunk = chunk ?h, ck_model_state_dict = m,
                     ck_optimizer_state_dict = opt, ck_logs = logs \<rparr>)"
    by (rule save_checkpoint_at_path)
  also have "\<dots> =
     Some (Pickled \<lparr> ck_epoch = (if us = [] then 0 else fst (last us)),
                   ck_chunk = (if us = [] then 0 else snd (last us)),
                   ck_model_state_dict = m,
                   ck_optimizer_state_dict = opt,
                   ck_logs = logs \<rparr>)"
    by (simp only: position_updates init_position)
  finally show ?thesis .
qed

text \<open>
  An instance of C4: two updates, the last one to position (3, 40).
\<close>

theorem save_after_updates_position_witness:
  "save_checkpoint
     (updates (CheckpointHandler_init ''exp'' 10 20 None ''/repo/src'' 0) [(1, 2), (3, 40)])
     (7::nat) (9::nat) (Map.empty :: real logs) Map.empty ''/repo/src/exp_checkpoint.pkl'' =
   Some (Pickled \<lparr> ck_epoch = 3, ck_chunk = 40, ck_model_state_dict = 7,
                   ck_optimizer_state_dict = 9, ck_logs = Map.empty \<rparr>)"
  using save_after_updates_position [of "''exp''" 10 20 None "''/repo/src''" 0 "[(1, 2), (3, 40)]"
      "7::nat" "9::nat" "Map.empty :: real logs" Map.empty]
  by (simp add: CheckpointHandler_init_def os_path_join_def Let_def)

text \<open>
  C6 (fresh start). When no file is at the checkpoint path, \<open>load_checkpoint\<close>
  raises nothing, returns \<open>None\<close> for both states and the logs of
  \<open>initialize_logs\<close>, which have exactly the seven metric keys, each with the empty
  list; the handler is unchanged, so a new handler stays at epoch 0, chunk 0.
\<close>

theorem load_checkpoint_fresh_start:
  assumes "fs (checkpoint_path self) = None"
  shows "load_checkpoint self fs = (Inr (None, None, initialize_logs), self)
       \<and> dom (initialize_logs :: 'v logs) =
           {''l0_norm_X_epoch'', ''l0_norm_X'', ''l0_norm'', ''runtime_per_250_batches'',
            ''train_loss_X_epoch'', ''train_loss_X'', ''train_loss''}
       \<and> (\<forall>k \<in> dom (initialize_logs :: 'v logs). (initialize_logs :: 'v logs) k = Some [])
       \<and> (self = CheckpointHandler_init name every maxrt dir script_dir now \<longrightarrow>
            epoch (snd (load_checkpoint self fs)) = 0 \<and> chunk (snd (load_checkpoint self fs)) = 0)"
proof -
  have l: "load_checkpoint self fs = (Inr (None, None, initialize_logs), self)"
    using assms by (simp add: load_checkpoint_def)
  have d: "dom (initialize_logs :: 'v logs) =
           {''l0_norm_X_epoch'', ''l0_norm_X'', ''l0_norm'', ''runtime_per_250_batches'',
            ''train_loss_X_epoch'', ''train_loss_X'', ''train_loss''}"
    unfolding initialize_logs_def by (simp only: dom_fun_upd dom_empty option.simps if_False)
  have e: "\<forall>k \<in> dom (initialize_logs :: 'v logs). (initialize_logs :: 'v logs) k = Some []"
    unfolding initialize_logs_def by (simp add: dom_def split: if_splits)
  have p: "self = CheckpointHandler_init name every maxrt dir script_dir now \<longrightarrow>
            epoch (snd (load_checkpoint self fs)) = 0 \<and> chunk (snd (load_checkpoint self fs)) = 0"
    by (simp only: l snd_conv) (auto simp only: init_position)
  show ?thesis by (rule conjI [OF l conjI [OF d conjI [OF e p]]])
qed

text \<open>
  An instance of C6 on the empty file system.
\<close>

theorem load_checkpoint_fresh_start_witness:
  "load_checkpoint (CheckpointHandler_init ''exp'' 10 20 None ''/repo/src'' 0)
     (Map.empty :: (nat, nat, real) filesystem) =
     (Inr (None, None, initialize_logs), CheckpointHandler_init ''exp'' 10 20 None ''/repo/src'' 0)
   \<and> epoch (snd (load_checkpoint (CheckpointHandler_init ''exp'' 10 20 None ''/repo/src'' 0)
        (Map.empty :: (nat, nat, real) filesystem))) = 0
   \<and> chunk (snd (load_checkpoint (CheckpointHandler_init ''exp'' 10 20 None ''/repo/src'' 0)
        (Map.empty :: (nat, nat, real) filesystem))) = 0
   \<and> (initialize_logs :: real logs) ''l0_norm'' = Some []"
proof -
  let ?h = "CheckpointHandler_init ''exp'' 10 20 None ''/repo/src'' 0"
  let ?fs = "Map.empty :: (nat, nat, real) filesystem"
  have a: "?fs (checkpoint_path ?h) = None" by simp
  note t = load_checkpoint_fresh_start [where fs = ?fs and self = ?h and name = "''exp''"
      and every = 10 and maxrt = 20 and dir = None and script_dir = "''/repo/src''" and now = 0]
  note r = t [OF a]
  have l: "load_checkpoint ?h ?fs = (Inr (None, None, initialize_logs), ?h)"
    by (rule r [THEN conjunct1])
  have "''l0_norm'' \<in> dom (initialize_logs :: real logs)"
    by (subst r [THEN conjunct2, THEN conjunct1]) simp
  then have e: "(initialize_logs :: real logs) ''l0_norm'' = Some []"
    by (rule r [THEN conjunct2, THEN conjunct2, THEN conjunct1, THEN bspec])
  have p: "epoch (snd (load_checkpoint ?h ?fs)) = 0 \<and> chunk (snd (load_checkpoint ?h ?fs)) = 0"
    by (rule r [THEN conjunct2, THEN conjunct2, THEN conjunct2, THEN mp, OF refl])
  show ?thesis
    by (rule conjI [OF l conjI [OF p [THEN conjunct1] conjI [OF p [THEN conjunct2] e]]])
qed
text \<open>
  C8 (footprint of \<open>should_checkpoint\<close>). The handler afterwards is the handler
  before with \<open>last_check_time\<close> set to the current time when more than
  \<open>checkpoint_every\<close> has elapsed since \<open>last_check_time\<close>, and the handler before
  otherwise: \<open>start_time\<close> and every other field keep their values. When the interval
  has not elapsed the call returns false and \<open>last_check_time\<close> is unchanged.
\<close>

theorem should_checkpoint_footprint:
  "snd (should_checkpoint self t) =
     (if t - last_check_time self > checkpoint_every self
      then self\<lparr>last_check_time := t\<rparr> else self)
   \<and> start_time (snd (should_checkpoint self t)) = start_time self
   \<and> (\<not> t - last_check_time self > checkpoint_every self \<longrightarrow>
        fst (should_checkpoint self t) = False
        \<and> last_check_time (snd (should_checkpoint self t)) = last_check_time self)"
  by (simp add: should_checkpoint_def Let_def)


text \<open>
  An instance of C8: a poll 5 seconds after construction changes nothing, a poll after
  15 seconds sets \<open>last_check_time\<close> only.
\<close>

theorem should_checkpoint_footprint_witness:
  "should_checkpoint (CheckpointHandler_init ''exp'' 10 20 None ''/repo/src'' 0) 5 =
     (False, CheckpointHandler_init ''exp'' 10 20 None ''/repo/src'' 0) \<and>
   snd (should_checkpoint (CheckpointHandler_init ''exp'' 10 20 None ''/repo/src'' 0) 15) =
     (CheckpointHandler_init ''exp'' 10 20 None ''/repo/src'' 0)\<lparr>last_check_time := 15\<rparr>"
proof -
  let ?h = "CheckpointHandler_init ''exp'' 10 20 None ''/repo/src'' 0"
  have a: "\<not> 5 - last_check_time ?h > checkpoint_every ?h" by (simp add: init_times)
  have b: "15 - last_check_time ?h > checkpoint_every ?h" by (simp add: init_times)
  from should_checkpoint_footprint [of ?h 5] a
  have "fst (should_checkpoint ?h 5) = False" "snd (should_checkpoint ?h 5) = ?h"
    by simp_all
  then have "should_checkpoint ?h 5 = (False, ?h)"
    by (simp add: prod_eq_iff)
  moreover from should_checkpoint_footprint [of ?h 15] b
  have "snd (should_checkpoint ?h 15) = ?h\<lparr>last_check_time := 15\<rparr>"
    by simp
  ultimately show ?thesis by simp
qed

section \<open>Properties of the datasets\<close>

lemma py_slice_to_pos: "0 < n \<Longrightarrow> py_slice_to n xs = take (nat n) xs"
  by (simp add: py_slice_to_def py_slice_def slice_index_def Let_def min_def)

lemma py_slice_from_pos: "0 < n \<Longrightarrow> py_slice_from n xs = drop (nat n) xs"
  by (simp add: py_slice_from_def py_slice_def slice_index_def Let_def min_def)


lemma chunk_loop_Some:
  assumes "chunk_loop seq_len cur processed = Some r"
  shows "0 < seq_len \<and> int (length (fst r)) < seq_len \<and>
         (\<exists>new. snd r = processed @ new \<and> (\<forall>c\<in>set new. int (length c) = seq_len) \<and>
                 concat new @ fst r = cur)"
proof (rule chunk_loop.raw_induct [where P = "\<lambda>seq_len cur processed r.
         0 < seq_len \<and> int (length (fst r)) < seq_len \<and>
         (\<exists>new. snd r = processed @ new \<and> (\<forall>c\<in>set new. int (length c) = seq_len) \<and>
                 concat new @ fst r = cur)", OF _ assms])
  fix loop :: "int \<Rightarrow> bytes \<Rightarrow> bytes list \<Rightarrow> (bytes \<times> bytes list) option"
  fix seq_len cur processed r
  assume IH: "\<And>seq_len cur processed r. loop seq_len cur processed = Some r \<Longrightarrow>
         0 < seq_len \<and> int (length (fst r)) < seq_len \<and>
         (\<exists>new. snd r = processed @ new \<and> (\<forall>c\<in>set new. int (length c) = seq_len) \<and>
                 concat new @ fst r = cur)"
  assume body: "(if seq_len \<le> int (length cur)
      then loop seq_len (py_slice_from seq_len cur) (processed @ [py_slice_to seq_len cur])
      else Some (cur, processed)) = Some r"
  show "0 < seq_len \<and> int (length (fst r)) < seq_len \<and>
         (\<exists>new. snd r = processed @ new \<and> (\<forall>c\<in>set new. int (length c) = seq_len) \<and>
                 concat new @ fst r = cur)"
  proof (cases "seq_len \<le> int (length cur)")
    case True
    with body have call: "loop seq_len (py_slice_from seq_len cur)
          (processed @ [py_slice_to seq_len cur]) = Some r"
      by simp
    from IH [OF call] obtain new where
      pos: "0 < seq_len" and short: "int (length (fst r)) < seq_len" and
      out: "snd r = (processed @ [py_slice_to seq_len cur]) @ new" and
      len: "\<forall>c\<in>set new. int (length c) = seq_len" and
      cat: "concat new @ fst r = py_slice_from seq_len cur"
      by blast
    let ?new = "take (nat seq_len) cur # new"
    have "snd r = processed @ ?new"
      using out pos by (simp add: py_slice_to_pos)
    moreover have "\<forall>c\<in>set ?new. int (length c) = seq_len"
      using len True pos by auto
    moreover have "concat ?new @ fst r = cur"
      using cat pos by (simp add: py_slice_from_pos)
    ultimately show ?thesis using pos short by blast
  next
    case False
    with body have "r = (cur, processed)" by simp
    with False show ?thesis by simp
  qed
qed

lemma chunk_loop_terminates:
  assumes "0 < seq_len"
  shows "\<exists>r. chunk_loop seq_len cur processed = Some r"
proof (induction "length cur" arbitrary: cur processed rule: less_induct)
  case less
  show ?case
  proof (cases "int (length cur) \<ge> seq_len")
    case True
    with assms have "length (py_slice_from seq_len cur) < length cur"
      by (simp add: py_slice_from_pos)
    from less [OF this] obtain r where
      "chunk_loop seq_len (py_slice_from seq_len cur) (processed @ [py_slice_to seq_len cur]) = Some r"
      by blast
    with True have "chunk_loop seq_len cur processed = Some r"
      by (subst chunk_loop.simps) simp
    then show ?thesis ..
  next
    case False
    then have "chunk_loop seq_len cur processed = Some (cur, processed)"
      by (subst chunk_loop.simps) simp
    then show ?thesis ..
  qed
qed

lemma examples_loop_Some:
  assumes "examples_loop seq_len examples cur processed = Some (rest, out)"
  shows "\<exists>new. out = processed @ new \<and> (\<forall>c\<in>set new. int (length c) = seq_len) \<and>
               concat new @ rest = cur @ concat examples \<and>
               (examples \<noteq> [] \<longrightarrow> 0 < seq_len \<and> int (length rest) < seq_len)"
  using assms
proof (induction examples arbitrary: cur processed)
  case Nil
  then show ?case by simp
next
  case (Cons e examples)
  from Cons.prems obtain cur' processed' where
    inner: "chunk_loop seq_len (cur @ e) processed = Some (cur', processed')" and
    outer: "examples_loop seq_len examples cur' processed' = Some (rest, out)"
    by (auto split: option.splits)
  from chunk_loop_Some [OF inner] obtain new1 where
    pos: "0 < seq_len" and short: "int (length cur') < seq_len" and
    p1: "processed' = processed @ new1" and
    l1: "\<forall>c\<in>set new1. int (length c) = seq_len" and
    c1: "concat new1 @ cur' = cur @ e"
    by auto
  from Cons.IH [OF outer] obtain new2 where
    p2: "out = processed' @ new2" and
    l2: "\<forall>c\<in>set new2. int (length c) = seq_len" and
    c2: "concat new2 @ rest = cur' @ concat examples" and
    s2: "examples \<noteq> [] \<longrightarrow> 0 < seq_len \<and> int (length rest) < seq_len"
    by blast
  have "out = processed @ (new1 @ new2)" using p1 p2 by simp
  moreover have "\<forall>c\<in>set (new1 @ new2). int (length c) = seq_len" using l1 l2 by auto
  moreover have "concat (new1 @ new2) @ rest = cur @ concat (e # examples)"
  proof -
    have "concat (new1 @ new2) @ rest = concat new1 @ (concat new2 @ rest)" by simp
    also have "\<dots> = (concat new1 @ cur') @ concat examples" by (simp only: c2 append_assoc)
    also have "\<dots> = cur @ concat (e # examples)" by (simp only: c1) simp
    finally show ?thesis .
  qed
  moreover have "int (length rest) < seq_len"
  proof (cases "examples = []")
    case True
    with outer have "rest = cur'" by simp
    with short show ?thesis by simp
  next
    case False
    with s2 show ?thesis by simp
  qed
  ultimately show ?case using pos by blast
qed

lemma examples_loop_terminates:
  assumes "0 < seq_len"
  shows "\<exists>r. examples_loop seq_len examples cur processed = Some r"
proof (induction examples arbitrary: cur processed)
  case Nil
  show ?case by simp
next
  case (Cons e examples)
  from chunk_loop_terminates [OF assms] obtain cur' processed' where
    "chunk_loop seq_len (cur @ e) processed = Some (cur', processed')"
    by (metis surj_pair)
  moreover from Cons obtain r where "examples_loop seq_len examples cur' processed' = Some r"
    by blast
  ultimately show ?case by simp
qed

lemma process_split_Some:
  assumes "process_split seq_len examples = Some chunks"
  shows "(\<forall>c\<in>set chunks. int (length c) = seq_len) \<and>
         (\<exists>k. concat chunks = concat examples @ replicate k 0 \<and> (k = 0 \<or> int k < seq_len))"
proof -
  from assms obtain rest processed where
    loop: "examples_loop seq_len examples [] [] = Some (rest, processed)"
    by (auto simp: process_split_def split: option.splits)
  from examples_loop_Some [OF loop] have
    len: "\<forall>c\<in>set processed. int (length c) = seq_len" and
    cat: "concat processed @ rest = concat examples" and
    short: "examples \<noteq> [] \<longrightarrow> 0 < seq_len \<and> int (length rest) < seq_len"
    by auto
  show ?thesis
  proof (cases "rest = []")
    case True
    with assms loop have "chunks = processed" by (simp add: process_split_def)
    with len cat True have "(\<forall>c\<in>set chunks. int (length c) = seq_len) \<and>
       concat chunks = concat examples @ replicate 0 0" by simp
    then show ?thesis by blast
  next
    case False
    with cat have "examples \<noteq> []" by auto
    with short have pos: "0 < seq_len" and lt: "int (length rest) < seq_len" by simp_all
    let ?k = "nat (seq_len - int (length rest))"
    have "length (rest @ replicate ?k 0) = nat seq_len" using lt by simp
    then have "take (nat seq_len) (rest @ replicate ?k 0) = rest @ replicate ?k 0"
      by (simp only: take_all order_refl)
    with assms loop False lt pos
    have chunks: "chunks = processed @ [rest @ replicate ?k 0]"
      by (simp only: process_split_def py_slice_to_pos Let_def option.case prod.case if_True
          option.inject) simp
    have "\<forall>c\<in>set chunks. int (length c) = seq_len"
      using len lt by (auto simp: chunks)
    moreover have "concat chunks = concat examples @ replicate ?k 0"
    proof -
      have "concat chunks = (concat processed @ rest) @ replicate ?k 0"
        by (simp add: chunks)
      then show ?thesis by (simp only: cat)
    qed
    moreover have "int ?k < seq_len" using False lt by (cases rest) auto
    ultimately show ?thesis by blast
  qed
qed

lemma process_split_terminates:
  assumes "0 < seq_len"
  shows "\<exists>chunks. process_split seq_len examples = Some chunks"
proof -
  from examples_loop_terminates [OF assms] obtain rest processed where
    "examples_loop seq_len examples [] [] = Some (rest, processed)"
    by (metis surj_pair)
  then show ?thesis by (simp add: process_split_def)
qed

lemma getitem_length:
  assumes "getitem self idx = Inr t"
  shows "\<exists>c\<in>set (data self). length t = length c"
proof -
  let ?n = "int (length (data self))"
  let ?j = "if idx < 0 then idx + ?n else idx"
  from assms have r: "0 \<le> ?j \<and> ?j < ?n" and t: "t = map uint (data self ! nat ?j)"
    by (auto simp: getitem_def Let_def split: if_splits)
  from r have "nat ?j < length (data self)" by auto
  then have "data self ! nat ?j \<in> set (data self)" by (rule nth_mem)
  with t show ?thesis by auto
qed

lemma getitem_fixed_length:
  assumes "\<forall>c\<in>set (data ds). int (length c) = seq_len" and "getitem ds idx = Inr t"
  shows "int (length t) = seq_len"
  using getitem_length [OF assms(2)] assms(1) by auto

lemma process_split_example:
  "process_split 4 [[1, 2, 3], [4, 5, 6]] = Some [[1, 2, 3, 4], [5, 6, 0, 0]]"
  "process_split 4 [] = Some []"
  "process_split 4 [[7]] = Some [[7, 0, 0, 0]]"
  by (simp_all add: process_split_def chunk_loop.simps py_slice_to_pos py_slice_from_pos
      numeral_2_eq_2 numeral_3_eq_3)

lemma py_slice_first: "0 \<le> n \<Longrightarrow> py_slice 0 n xs = take (nat n) xs"
  by (simp add: py_slice_def slice_index_def Let_def min_def)

lemma get_subset_Inr:
  assumes "get_subset start_token end_token dataset s = (Inr r, s')"
  shows "dataset < length s \<and> r = length s \<and>
         s' = s @ [(s ! dataset)\<lparr>data :=
                py_slice (start_token div int (length (hd (data (s ! dataset)))))
                         (end_token div int (length (hd (data (s ! dataset)))))
                         (data (s ! dataset))\<rparr>]"
  using assms
  by (auto simp: get_subset_def deepcopy_def Let_def nth_append
           split: if_splits list.splits)

lemma get_subset_Inl:
  assumes "get_subset start_token end_token dataset s = (Inl e, s')"
  shows "s' = s"
  using assms
  by (auto simp: get_subset_def deepcopy_def Let_def split: if_splits list.splits)

lemma get_subset_ok:
  assumes "dataset < length s" and "data (s ! dataset) = first # rest"
    and "0 < length first"
    and "start_token mod int (length first) = 0" and "end_token mod int (length first) = 0"
    and "start_token < end_token"
  shows "get_subset start_token end_token dataset s =
           (Inr (length s),
            s @ [(s ! dataset)\<lparr>data :=
                   py_slice (start_token div int (length first)) (end_token div int (length first))
                     (data (s ! dataset))\<rparr>])"
  using assms by (simp add: get_subset_def deepcopy_def Let_def nth_append)

lemma get_subset_empty:
  "dataset < length s \<Longrightarrow> data (s ! dataset) = [] \<Longrightarrow>
     get_subset start_token end_token dataset s = (Inl IndexError, s)"
  by (simp add: get_subset_def)

lemma get_subset_zero_length:
  "dataset < length s \<Longrightarrow> data (s ! dataset) = [] # rest \<Longrightarrow>
     get_subset start_token end_token dataset s = (Inl ZeroDivisionError, s)"
  by (simp add: get_subset_def)

lemma str_int_2: "str_int 2 = ''2''"
  by (simp add: str_int_def)

lemma get_subset_example:
  "get_subset 2 6 0 [\<lparr> data = [[1, 2], [3, 4], [5, 6]], split = ''train'' \<rparr>] =
     (Inr 1, [\<lparr> data = [[1, 2], [3, 4], [5, 6]], split = ''train'' \<rparr>,
              \<lparr> data = [[3, 4], [5, 6]], split = ''train'' \<rparr>])"
  by (simp add: get_subset_def deepcopy_def py_slice_def slice_index_def Let_def)

subsection \<open>Claims about the datasets\<close>

text \<open>
  C5 (contract of \<open>get_subset\<close>). For a dataset that has a first chunk and whose
  chunks all have length \<open>L > 0\<close>: \<open>get_subset(0, 2*L, ds)\<close> returns a new dataset
  whose chunks are the first two chunks of \<open>ds\<close> in their order; and the call raises
  an \<open>AssertionError\<close> whose message names the first failed constraint when
  \<open>start_token\<close> is not a multiple of \<open>L\<close>, when \<open>end_token\<close> is not, and when
  \<open>start_token \<ge> end_token\<close>. (On a dataset with no chunk the source raises
  \<open>IndexError\<close> at \<open>dataset.data[0]\<close>, and with an empty first chunk
  \<open>ZeroDivisionError\<close>: lemmas \<open>get_subset_empty\<close> and \<open>get_subset_zero_length\<close>.)
\<close>

theorem get_subset_contract:
  assumes "dataset < length s" and "data (s ! dataset) \<noteq> []"
    and "\<forall>c \<in> set (data (s ! dataset)). int (length c) = L" and "0 < L"
  shows "fst (get_subset 0 (2 * L) dataset s) = Inr (length s)
       \<and> data (snd (get_subset 0 (2 * L) dataset s) ! length s) = take 2 (data (s ! dataset))
       \<and> split (snd (get_subset 0 (2 * L) dataset s) ! length s) = split (s ! dataset)
       \<and> (start_token mod L \<noteq> 0 \<longrightarrow>
            get_subset start_token end_token dataset s =
              (Inl (AssertionError
                 (''Start token must be a multiple of the sequence length '' @ str_int L)), s))
       \<and> (start_token mod L = 0 \<and> end_token mod L \<noteq> 0 \<longrightarrow>
            get_subset start_token end_token dataset s =
              (Inl (AssertionError
                 (''End token must be a multiple of the sequence length '' @ str_int L)), s))
       \<and> (start_token mod L = 0 \<and> end_token mod L = 0 \<and> start_token \<ge> end_token \<longrightarrow>
            get_subset start_token end_token dataset s =
              (Inl (AssertionError ''Start token must be smaller than end token''), s))"
proof -
  from assms(2) obtain first rest where d: "data (s ! dataset) = first # rest"
    by (cases "data (s ! dataset)") auto
  with assms(3) have L: "int (length first) = L" by simp
  with assms(4) have pos: "0 < length first" by auto
  have "get_subset 0 (2 * L) dataset s =
           (Inr (length s),
            s @ [(s ! dataset)\<lparr>data := py_slice (0 div L) (2 * L div L) (data (s ! dataset))\<rparr>])"
    using get_subset_ok [OF assms(1) d pos, of 0 "2 * L"] assms(4) by (simp add: L)
  moreover have "py_slice (0 div L) (2 * L div L) (data (s ! dataset)) = take 2 (data (s ! dataset))"
    using assms(4) by (simp add: py_slice_first)
  ultimately have ok: "get_subset 0 (2 * L) dataset s =
           (Inr (length s), s @ [(s ! dataset)\<lparr>data := take 2 (data (s ! dataset))\<rparr>])"
    by simp
  have e1: "start_token mod L \<noteq> 0 \<longrightarrow>
            get_subset start_token end_token dataset s =
              (Inl (AssertionError
                 (''Start token must be a multiple of the sequence length '' @ str_int L)), s)"
    using assms(1,4) d L by (simp add: get_subset_def Let_def)
  have e2: "start_token mod L = 0 \<and> end_token mod L \<noteq> 0 \<longrightarrow>
            get_subset start_token end_token dataset s =
              (Inl (AssertionError
                 (''End token must be a multiple of the sequence length '' @ str_int L)), s)"
    using assms(1,4) d L by (simp add: get_subset_def Let_def)
  have e3: "start_token mod L = 0 \<and> end_token mod L = 0 \<and> start_token \<ge> end_token \<longrightarrow>
            get_subset start_token end_token dataset s =
              (Inl (AssertionError ''Start token must be smaller than end token''), s)"
    using assms(1,4) d L by (simp add: get_subset_def Let_def)
  from ok e1 e2 e3 show ?thesis by simp
qed

text \<open>
  An instance of C5: three chunks of length 2; the calls (0, 4), (1, 4), (0, 3) and
  (4, 0).
\<close>

theorem get_subset_contract_witness:
  "fst (get_subset 0 (2 * 2) 0 [\<lparr> data = [[1, 2], [3, 4], [5, 6]], split = ''train'' \<rparr>]) = Inr 1
   \<and> data (snd (get_subset 0 (2 * 2) 0 [\<lparr> data = [[1, 2], [3, 4], [5, 6]], split = ''train'' \<rparr>]) ! 1)
       = [[1, 2], [3, 4]]
   \<and> get_subset 1 4 0 [\<lparr> data = [[1, 2], [3, 4], [5, 6]], split = ''train'' \<rparr>] =
       (Inl (AssertionError ''Start token must be a multiple of the sequence length 2''),
        [\<lparr> data = [[1, 2], [3, 4], [5, 6]], split = ''train'' \<rparr>])
   \<and> get_subset 0 3 0 [\<lparr> data = [[1, 2], [3, 4], [5, 6]], split = ''train'' \<rparr>] =
       (Inl (AssertionError ''End token must be a multiple of the sequence length 2''),
        [\<lparr> data = [[1, 2], [3, 4], [5, 6]], split = ''train'' \<rparr>])
   \<and> get_subset 4 0 0 [\<lparr> data = [[1, 2], [3, 4], [5, 6]], split = ''train'' \<rparr>] =
       (Inl (AssertionError ''Start token must be smaller than end token''),
        [\<lparr> data = [[1, 2], [3, 4], [5, 6]], split = ''train'' \<rparr>])"
proof -
  let ?s = "[\<lparr> data = [[1, 2], [3, 4], [5, 6]], split = ''train'' \<rparr>]"
  have h1: "0 < length ?s" by simp
  have h2: "data (?s ! 0) \<noteq> []" by simp
  have h3: "\<forall>c \<in> set (data (?s ! 0)). int (length c) = 2" by simp
  have h4: "(0::int) < 2" by simp
  note t = get_subset_contract [OF h1 h2 h3 h4]
  have a: "fst (get_subset 0 (2 * 2) 0 ?s) = Inr 1"
    using t [of 0 0, THEN conjunct1] by simp
  have b: "data (snd (get_subset 0 (2 * 2) 0 ?s) ! 1) = [[1, 2], [3, 4]]"
    using t [of 0 0, THEN conjunct2, THEN conjunct1] by (simp add: numeral_2_eq_2)
  have c: "get_subset 1 4 0 ?s =
       (Inl (AssertionError ''Start token must be a multiple of the sequence length 2''), ?s)"
    using t [of 1 4, THEN conjunct2, THEN conjunct2, THEN conjunct2, THEN conjunct1]
    by (simp add: str_int_2)
  have d: "get_subset 0 3 0 ?s =
       (Inl (AssertionError ''End token must be a multiple of the sequence length 2''), ?s)"
    using t [of 0 3, THEN conjunct2, THEN conjunct2, THEN conjunct2, THEN conjunct2, THEN conjunct1]
    by (simp add: str_int_2)
  have e: "get_subset 4 0 0 ?s =
       (Inl (AssertionError ''Start token must be smaller than end token''), ?s)"
    using t [of 4 0, THEN conjunct2, THEN conjunct2, THEN conjunct2, THEN conjunct2, THEN conjunct2]
    by simp
  from a b c d e show ?thesis by (intro conjI)
qed

text \<open>
  C9 (fixed-length chunks). For a positive \<open>sequence_length\<close>
  \<open>create_and_save_dataset\<close> returns; and whenever it returns, every chunk of every
  split has length exactly \<open>sequence_length\<close>, so every item of \<open>__getitem__\<close> has
  that length, and the chunks of a split, one after the other, are the bytes of its
  examples followed by fewer than \<open>sequence_length\<close> zero bytes (the padding of the last
  chunk).
\<close>

theorem create_and_save_dataset_fixed_length:
  "(0 < seq_len \<longrightarrow> (\<exists>r. create_and_save_dataset seq_len save_path wiki_data fs = Some r)) \<and>
   (\<forall>datasets fs'.
      create_and_save_dataset seq_len save_path wiki_data fs = Some (datasets, fs') \<longrightarrow>
        (\<forall>ds \<in> {train datasets, validation datasets, test datasets}.
           (\<forall>c \<in> set (data ds). int (length c) = seq_len) \<and>
           (\<forall>idx t. getitem ds idx = Inr t \<longrightarrow> int (length t) = seq_len)) \<and>
        (\<exists>k. concat (data (train datasets)) = concat (fst wiki_data) @ replicate k 0 \<and>
             (k = 0 \<or> int k < seq_len)) \<and>
        (\<exists>k. concat (data (validation datasets)) = concat (fst (snd wiki_data)) @ replicate k 0 \<and>
             (k = 0 \<or> int k < seq_len)) \<and>
        (\<exists>k. concat (data (test datasets)) = concat (snd (snd wiki_data)) @ replicate k 0 \<and>
             (k = 0 \<or> int k < seq_len)) \<and>
        sequence_length datasets = seq_len \<and> fs' = fs(save_path \<mapsto> datasets))"
proof (intro conjI impI allI)
  obtain tr va te where w: "wiki_data = (tr, va, te)" by (cases wiki_data) auto
  assume pos: "0 < seq_len"
  from process_split_terminates [OF pos] obtain a b c where
    "process_split seq_len tr = Some a" "process_split seq_len va = Some b"
    "process_split seq_len te = Some c"
    by blast
  then show "\<exists>r. create_and_save_dataset seq_len save_path wiki_data fs = Some r"
    by (simp add: create_and_save_dataset_def w Let_def)
next
  fix datasets fs'
  obtain tr va te where w: "wiki_data = (tr, va, te)" by (cases wiki_data) auto
  assume "create_and_save_dataset seq_len save_path wiki_data fs = Some (datasets, fs')"
  then obtain a b c where
    a: "process_split seq_len tr = Some a" and
    b: "process_split seq_len va = Some b" and
    c: "process_split seq_len te = Some c" and
    d: "datasets = \<lparr> train = \<lparr> data = a, split = ''train'' \<rparr>,
                  validation = \<lparr> data = b, split = ''validation'' \<rparr>,
                  test = \<lparr> data = c, split = ''test'' \<rparr>,
                  sequence_length = seq_len \<rparr>" and
    f: "fs' = fs(save_path \<mapsto> datasets)"
    by (auto simp: create_and_save_dataset_def w Let_def split: option.splits)
  note pa = process_split_Some [OF a] and pb = process_split_Some [OF b]
    and pc = process_split_Some [OF c]
  have fixed: "\<forall>ds \<in> {train datasets, validation datasets, test datasets}.
           \<forall>c \<in> set (data ds). int (length c) = seq_len"
    using pa pb pc by (simp add: d)
  show "\<forall>ds \<in> {train datasets, validation datasets, test datasets}.
           (\<forall>c \<in> set (data ds). int (length c) = seq_len) \<and>
           (\<forall>idx t. getitem ds idx = Inr t \<longrightarrow> int (length t) = seq_len)"
    using fixed getitem_fixed_length by blast
  show "\<exists>k. concat (data (train datasets)) = concat (fst wiki_data) @ replicate k 0 \<and>
             (k = 0 \<or> int k < seq_len)"
    using pa by (simp add: d w)
  show "\<exists>k. concat (data (validation datasets)) = concat (fst (snd wiki_data)) @ replicate k 0 \<and>
             (k = 0 \<or> int k < seq_len)"
    using pb by (simp add: d w)
  show "\<exists>k. concat (data (test datasets)) = concat (snd (snd wiki_data)) @ replicate k 0 \<and>
             (k = 0 \<or> int k < seq_len)"
    using pc by (simp add: d w)
  show "sequence_length datasets = seq_len" by (simp add: d)
  show "fs' = fs(save_path \<mapsto> datasets)" by (rule f)
qed

text \<open>
  An instance of C9: \<open>sequence_length = 4\<close>, two training examples of three bytes, no
  validation example, one test example of one byte.
\<close>

theorem create_and_save_dataset_fixed_length_witness:
  "(\<exists>datasets fs'.
      create_and_save_dataset 4 ''wiki.pt'' ([[1, 2, 3], [4, 5, 6]], [], [[7]]) Map.empty
        = Some (datasets, fs') \<and>
      data (train datasets) = [[1, 2, 3, 4], [5, 6, 0, 0]] \<and>
      data (validation datasets) = [] \<and>
      data (test datasets) = [[7, 0, 0, 0]] \<and>
      getitem (train datasets) 1 = Inr [5, 6, 0, 0] \<and>
      int (length [5, 6, 0, 0 :: int]) = 4)"
proof -
  let ?w = "([[1, 2, 3], [4, 5, 6]], [], [[7]]) :: bytes list \<times> bytes list \<times> bytes list"
  note t = create_and_save_dataset_fixed_length [of 4 "''wiki.pt''" ?w Map.empty]
  have "(0::int) < 4" by simp
  with t obtain r where r: "create_and_save_dataset 4 ''wiki.pt'' ?w Map.empty = Some r"
    by blast
  obtain datasets fs' where p: "r = (datasets, fs')" by (cases r)
  let ?D = "\<lparr> train = \<lparr> data = [[1, 2, 3, 4], [5, 6, 0, 0]], split = ''train'' \<rparr>,
              validation = \<lparr> data = [], split = ''validation'' \<rparr>,
              test = \<lparr> data = [[7, 0, 0, 0]], split = ''test'' \<rparr>,
              sequence_length = 4 \<rparr>"
  have v: "create_and_save_dataset 4 ''wiki.pt'' ?w Map.empty = Some (?D, [''wiki.pt'' \<mapsto> ?D])"
    by (simp add: create_and_save_dataset_def process_split_example Let_def)
  from r p v have ds: "datasets = ?D" by simp
  have g: "getitem (train datasets) 1 = Inr [5, 6, 0, 0]"
    by (simp add: ds getitem_def)
  from t r p g have "int (length [5, 6, 0, 0 :: int]) = 4"
    by blast
  with r p g show ?thesis by (simp add: ds)
qed

text \<open>
  C10 (\<open>get_subset\<close> does not change its input). When \<open>get_subset\<close> returns
  normally, the result is a reference that was not allocated before (so not the input),
  every object allocated before the call, the input dataset among them, is what it was,
  and the new object holds the selected chunks and the split name of the input.
\<close>

theorem get_subset_frame:
  assumes "get_subset start_token end_token dataset s = (Inr r, s')"
  shows "dataset < length s \<and> r = length s \<and> r \<noteq> dataset
       \<and> length s' = Suc (length s)
       \<and> (\<forall>a < length s. s' ! a = s ! a)
       \<and> data (s' ! dataset) = data (s ! dataset)
       \<and> data (s' ! r) =
           py_slice (start_token div int (length (hd (data (s ! dataset)))))
                    (end_token div int (length (hd (data (s ! dataset)))))
                    (data (s ! dataset))
       \<and> split (s' ! r) = split (s ! dataset)"
  using get_subset_Inr [OF assms] by (simp add: nth_append)

text \<open>
  An instance of C10: the call (2, 6) on three chunks of length 2.
\<close>

theorem get_subset_frame_witness:
  "get_subset 2 6 0 [\<lparr> data = [[1, 2], [3, 4], [5, 6]], split = ''train'' \<rparr>] =
     (Inr 1, [\<lparr> data = [[1, 2], [3, 4], [5, 6]], split = ''train'' \<rparr>,
              \<lparr> data = [[3, 4], [5, 6]], split = ''train'' \<rparr>])
   \<and> (1::nat) \<noteq> 0
   \<and> data ([\<lparr> data = [[1, 2], [3, 4], [5, 6]], split = ''train'' \<rparr>,
             \<lparr> data = [[3, 4], [5, 6 :: 8 word]], split = ''train'' \<rparr>] ! 0) =
       data ([\<lparr> data = [[1, 2], [3, 4], [5, 6]], split = ''train'' \<rparr>] ! 0)"
  using get_subset_frame [OF get_subset_example] get_subset_example by simp

section \<open>Properties of the DRR trainer\<close>

lemma modify_grad_None: "grad param = None \<Longrightarrow> modify_grad self param = Inr param"
  by (simp add: modify_grad_def)

lemma modify_grad_Some:
  assumes "py_number (alpha self) = Some a" and "grad param = Some g"
    and "length g = length (param_data param)"
  shows "modify_grad self param =
           Inr (param\<lparr>grad := Some (map2 (+) g
                  (map (\<lambda>w. a * beta self * sgn w * exp (- beta self * \<bar>w\<bar>))
                     (param_data param)))\<rparr>)"
  using assms by (simp add: modify_grad_def Let_def)

lemma modify_grad_shape:
  assumes "modify_grad self param = Inr param'"
  shows "param_data param' = param_data param \<and> (grad param' = None \<longleftrightarrow> grad param = None)"
  using assms by (auto simp: modify_grad_def Let_def split: option.splits if_splits)

lemma modify_grads_loop_ok:
  assumes "py_number (alpha self) = Some a"
    and "\<forall>p \<in> set params. \<forall>g. grad p = Some g \<longrightarrow> length g = length (param_data p)"
  shows "\<exists>params'. modify_grads_loop self params = (None, params') \<and>
           length params' = length params \<and>
           (\<forall>i < length params. modify_grad self (params ! i) = Inr (params' ! i))"
  using assms(2)
proof (induction params)
  case Nil
  show ?case by simp
next
  case (Cons p params)
  have "\<exists>p'. modify_grad self p = Inr p'"
  proof (cases "grad p")
    case None
    then show ?thesis by (simp add: modify_grad_None)
  next
    case (Some g)
    with Cons.prems have "length g = length (param_data p)" by simp
    from modify_grad_Some [OF assms(1) Some this] show ?thesis by blast
  qed
  then obtain p' where p': "modify_grad self p = Inr p'" ..
  from Cons obtain params' where
    l: "modify_grads_loop self params = (None, params')" and
    n: "length params' = length params" and
    e: "\<forall>i < length params. modify_grad self (params ! i) = Inr (params' ! i)"
    by auto
  have "modify_grads_loop self (p # params) = (None, p' # params')"
    using p' l by simp
  moreover have "length (p' # params') = length (p # params)" using n by simp
  moreover have "\<forall>i < length (p # params).
      modify_grad self ((p # params) ! i) = Inr ((p' # params') ! i)"
    using p' e by (auto simp: nth_Cons split: nat.splits)
  ultimately show ?case by blast
qed

lemma DrrTrainer_init_beta_checked:
  assumes "args base ''beta'' = Some b" and "\<forall>x. b \<noteq> PyFloat x"
  shows "DrrTrainer_init base = Inl (AssertionError ''beta must be a float'')"
  using assms by (cases b) (simp_all add: DrrTrainer_init_def)

lemma DrrTrainer_init_alpha_any:
  assumes "args base ''beta'' = Some (PyFloat b)" and "args base ''alpha'' = Some a"
  shows "DrrTrainer_init base =
           Inr \<lparr> args = args base, ddp_model = ddp_model base, alpha = a, beta = b \<rparr>"
  using assms by (simp add: DrrTrainer_init_def)

subsection \<open>Claims about the DRR trainer\<close>

text \<open>
  C3 (DRR gradient modification). With a numeric \<open>alpha\<close> of value \<open>a\<close> and
  gradients of the shape of their parameters, one call of \<open>modify_grads\<close> raises
  nothing, keeps the values of every parameter, leaves a parameter without gradient as
  it is, and turns the gradient \<open>g\<close> of a parameter with values \<open>w\<close> into
  \<open>g + a * beta * sign(w) * exp(- beta * |w|)\<close>, entry by entry.
\<close>

theorem modify_grads_drr:
  assumes "py_number (alpha self) = Some a"
    and "\<forall>p \<in> set (ddp_model self). \<forall>g. grad p = Some g \<longrightarrow> length g = length (param_data p)"
  shows "fst (modify_grads self) = None
       \<and> length (ddp_model (snd (modify_grads self))) = length (ddp_model self)
       \<and> alpha (snd (modify_grads self)) = alpha self
       \<and> beta (snd (modify_grads self)) = beta self
       \<and> (\<forall>i < length (ddp_model self).
            param_data (ddp_model (snd (modify_grads self)) ! i) = param_data (ddp_model self ! i)
          \<and> (grad (ddp_model self ! i) = None \<longrightarrow>
               ddp_model (snd (modify_grads self)) ! i = ddp_model self ! i)
          \<and> (\<forall>g. grad (ddp_model self ! i) = Some g \<longrightarrow>
               (\<exists>g'. grad (ddp_model (snd (modify_grads self)) ! i) = Some g'
                  \<and> length g' = length g
                  \<and> (\<forall>j < length g.
                        g' ! j = g ! j + a * beta self * sgn (param_data (ddp_model self ! i) ! j)
                                     * exp (- beta self * \<bar>param_data (ddp_model self ! i) ! j\<bar>)))))"
proof -
  from modify_grads_loop_ok [OF assms] obtain params' where
    l: "modify_grads_loop self (ddp_model self) = (None, params')" and
    n: "length params' = length (ddp_model self)" and
    e: "\<forall>i < length (ddp_model self). modify_grad self (ddp_model self ! i) = Inr (params' ! i)"
    by blast
  have m: "modify_grads self = (None, self\<lparr>ddp_model := params'\<rparr>)"
    using l by (simp add: modify_grads_def)
  have each: "param_data (params' ! i) = param_data (ddp_model self ! i)
          \<and> (grad (ddp_model self ! i) = None \<longrightarrow> params' ! i = ddp_model self ! i)
          \<and> (\<forall>g. grad (ddp_model self ! i) = Some g \<longrightarrow>
               (\<exists>g'. grad (params' ! i) = Some g'
                  \<and> length g' = length g
                  \<and> (\<forall>j < length g.
                        g' ! j = g ! j + a * beta self * sgn (param_data (ddp_model self ! i) ! j)
                                     * exp (- beta self * \<bar>param_data (ddp_model self ! i) ! j\<bar>))))"
    if i: "i < length (ddp_model self)" for i
  proof -
    let ?p = "ddp_model self ! i"
    from e i have r: "modify_grad self ?p = Inr (params' ! i)" by simp
    have mem: "?p \<in> set (ddp_model self)" using i by (rule nth_mem)
    show ?thesis
    proof (cases "grad ?p")
      case None
      with r show ?thesis by (simp add: modify_grad_None)
    next
      case (Some g)
      with assms(2) mem have len: "length g = length (param_data ?p)" by blast
      from modify_grad_Some [OF assms(1) Some len] r
      have p': "params' ! i = ?p\<lparr>grad := Some (map2 (+) g
                  (map (\<lambda>w. a * beta self * sgn w * exp (- beta self * \<bar>w\<bar>))
                     (param_data ?p)))\<rparr>"
        by simp
      show ?thesis using Some len by (simp add: p')
    qed
  qed
  show ?thesis using n each by (simp add: m)
qed

text \<open>
  An instance of C3: \<open>alpha = 0.5\<close>, \<open>beta = 2\<close>, one parameter with values
  \<open>[0, 2]\<close> and gradient \<open>[1, 1]\<close>, one parameter without gradient.
\<close>

theorem modify_grads_drr_witness:
  "fst (modify_grads \<lparr> args = Map.empty,
          ddp_model = [\<lparr> param_data = [0, 2], grad = Some [1, 1] \<rparr>,
                       \<lparr> param_data = [3], grad = None \<rparr>],
          alpha = PyFloat (1 / 2), beta = 2 \<rparr>) = None
   \<and> ddp_model (snd (modify_grads \<lparr> args = Map.empty,
          ddp_model = [\<lparr> param_data = [0, 2], grad = Some [1, 1] \<rparr>,
                       \<lparr> param_data = [3], grad = None \<rparr>],
          alpha = PyFloat (1 / 2), beta = 2 \<rparr>)) ! 1 = \<lparr> param_data = [3], grad = None \<rparr>
   \<and> (\<exists>g'. grad (ddp_model (snd (modify_grads \<lparr> args = Map.empty,
          ddp_model = [\<lparr> param_data = [0, 2], grad = Some [1, 1] \<rparr>,
                       \<lparr> param_data = [3], grad = None \<rparr>],
          alpha = PyFloat (1 / 2), beta = 2 \<rparr>)) ! 0) = Some g'
        \<and> length g' = 2 \<and> g' ! 0 = 1 \<and> g' ! 1 = 1 + exp (- 4))"
proof -
  let ?ps = "[\<lparr> param_data = [0, 2], grad = Some [1, 1] \<rparr>, \<lparr> param_data = [3], grad = None \<rparr>]"
  let ?S = "\<lparr> args = Map.empty, ddp_model = ?ps, alpha = PyFloat (1 / 2), beta = 2 \<rparr>"
  have h1: "py_number (alpha ?S) = Some (1 / 2)" by simp
  have h2: "\<forall>p \<in> set (ddp_model ?S). \<forall>g. grad p = Some g \<longrightarrow> length g = length (param_data p)"
    by simp
  note t = modify_grads_drr [OF h1 h2]
  have r: "fst (modify_grads ?S) = None" by (rule t [THEN conjunct1])
  note each = t [THEN conjunct2, THEN conjunct2, THEN conjunct2, THEN conjunct2]
  have "(1::nat) < length (ddp_model ?S)" by simp
  with each have "grad (ddp_model ?S ! 1) = None \<longrightarrow>
               ddp_model (snd (modify_grads ?S)) ! 1 = ddp_model ?S ! 1"
    by blast
  then have p1: "ddp_model (snd (modify_grads ?S)) ! 1 = \<lparr> param_data = [3], grad = None \<rparr>"
    by simp
  have "(0::nat) < length (ddp_model ?S)" by simp
  with each have "\<forall>g. grad (ddp_model ?S ! 0) = Some g \<longrightarrow>
               (\<exists>g'. grad (ddp_model (snd (modify_grads ?S)) ! 0) = Some g'
                  \<and> length g' = length g
                  \<and> (\<forall>j < length g.
                        g' ! j = g ! j + 1 / 2 * beta ?S * sgn (param_data (ddp_model ?S ! 0) ! j)
                                     * exp (- beta ?S * \<bar>param_data (ddp_model ?S ! 0) ! j\<bar>)))"
    by blast
  then obtain g' where g: "grad (ddp_model (snd (modify_grads ?S)) ! 0) = Some g'"
     "length g' = 2"
     "\<forall>j < 2. g' ! j = [1, 1] ! j + 1 / 2 * 2 * sgn ([0, 2::real] ! j) * exp (- 2 * \<bar>[0, 2::real] ! j\<bar>)"
    by auto
  from g(3) have "g' ! 0 = 1" "g' ! 1 = 1 + exp (- 4)"
    by (simp_all add: numeral_2_eq_2)
  with r p1 g(1,2) show ?thesis by blast
qed

text \<open>
  C7 (fail-fast validation) does not hold for \<open>alpha\<close>: \<open>__init__\<close> asserts that
  \<open>beta\<close> is a float (lemma \<open>DrrTrainer_init_beta_checked\<close>) and checks nothing about
  \<open>alpha\<close> (lemma \<open>DrrTrainer_init_alpha_any\<close>). With the string \<open>'strong'\<close> for
  \<open>alpha\<close> the construction succeeds, and the first \<open>modify_grads\<close> on a parameter
  with a gradient raises \<open>TypeError\<close>.
\<close>

theorem DrrTrainer_init_alpha_unchecked:
  "DrrTrainer_init
     \<lparr> args = [''alpha'' \<mapsto> PyStr ''strong'', ''beta'' \<mapsto> PyFloat 5],
       ddp_model = [\<lparr> param_data = [1], grad = Some [0] \<rparr>] \<rparr> =
   Inr \<lparr> args = [''alpha'' \<mapsto> PyStr ''strong'', ''beta'' \<mapsto> PyFloat 5],
         ddp_model = [\<lparr> param_data = [1], grad = Some [0] \<rparr>],
         alpha = PyStr ''strong'', beta = 5 \<rparr>
   \<and> modify_grads
        \<lparr> args = [''alpha'' \<mapsto> PyStr ''strong'', ''beta'' \<mapsto> PyFloat 5],
          ddp_model = [\<lparr> param_data = [1], grad = Some [0] \<rparr>],
          alpha = PyStr ''strong'', beta = 5 \<rparr> =
       (Some TypeError,
        \<lparr> args = [''alpha'' \<mapsto> PyStr ''strong'', ''beta'' \<mapsto> PyFloat 5],
          ddp_model = [\<lparr> param_data = [1], grad = Some [0] \<rparr>],
          alpha = PyStr ''strong'', beta = 5 \<rparr>)"
  by (simp add: DrrTrainer_init_def modify_grads_def modify_grad_def)

end
